theory Spec2Isabelle
  imports Main "HOL-Library.AList"
begin

section \<open>Python values\<close>

text \<open>
  The adapter of \<^verbatim>\<open>bugzilla4.py\<close> (class \<^verbatim>\<open>Bugzilla4\<close>) is Python 2 code: it
  builds dictionaries and lists, hands them to an XML-RPC proxy and reshapes what comes
  back. Arguments and responses are dynamically typed, so they are modelled by one
  datatype of values. A dictionary is an association list with string keys (XML-RPC
  structs have string member names); it is read with \<open>map_of\<close>, written with
  \<open>AList.update\<close> (replace the entry, or append a new one) and entries are removed with
  \<open>AList.delete\<close>. Floating-point numbers, dates and binary data are outside the model,
  as are the encodings of byte and unicode strings: a string is a list of characters.
  Responses are trees, as XML-RPC unmarshalling builds them: no object occurs twice in
  one response, so mutating a record in place is replacing it by its new value. The query
  of \<^verbatim>\<open>_query\<close> is an object of the caller, where one list may be held in several
  places: its values carry the identity of their lists (type \<open>obj\<close> below).
\<close>

datatype pyval =
    PNone
  | PBool bool
  | PInt int
  | PStr string
  | PList "pyval list"
  | PDict "(string \<times> pyval) list"

type_synonym dict = "(string \<times> pyval) list"

text \<open>
  Exceptions are values. \<open>NeedParamError\<close> is \<^verbatim>\<open>bugzilla.base.NeedParamError\<close>;
  \<open>Fault\<close> is a fault of the remote service with its code and message; the others are
  the interpreter's standard exceptions.
\<close>

datatype error =
    TypeError
  | ValueError
  | KeyError
  | AttributeError
  | NeedParamError
  | Fault int string

text \<open>
  The proxy \<^verbatim>\<open>self._proxy\<close> is the external collaborator: given the name of a remote
  method and its parameter, it returns the parsed response or raises. A method of the
  adapter returns the list of remote calls it issued, in order, together with its result.
\<close>

type_synonym proxy = "string \<Rightarrow> pyval \<Rightarrow> error + pyval"
type_synonym rpc_call = "string \<times> pyval"
type_synonym outcome = "rpc_call list \<times> (error + pyval)"

text \<open>
  Two builtins of the interpreter are parameters of the model: \<^verbatim>\<open>int(s)\<close> on a
  string \<open>s\<close> (\<open>None\<close> when it raises \<^verbatim>\<open>ValueError\<close>), and \<^verbatim>\<open>str(v)\<close> on a list or
  a dictionary \<open>v\<close>.
\<close>

type_synonym int_parser = "string \<Rightarrow> int option"
type_synonym container_str = "pyval \<Rightarrow> string"

subsection \<open>Sequencing of computations that may raise\<close>

definition and_then :: "error + 'a \<Rightarrow> ('a \<Rightarrow> error + 'b) \<Rightarrow> error + 'b" where
  "and_then m f = (case m of Inl e \<Rightarrow> Inl e | Inr x \<Rightarrow> f x)"

text \<open>
  \<^verbatim>\<open>[f(x) for x in xs]\<close> and Python 2's \<^verbatim>\<open>map(f, xs)\<close>, where \<open>f\<close> may raise: the
  first exception ends the evaluation.
\<close>

fun map_err :: "('a \<Rightarrow> error + 'b) \<Rightarrow> 'a list \<Rightarrow> error + 'b list" where
  "map_err f [] = Inr []"
| "map_err f (x # xs) =
     and_then (f x) (\<lambda>y. and_then (map_err f xs) (\<lambda>ys. Inr (y # ys)))"

subsection \<open>Operations of the interpreter\<close>

text \<open>Truth value of an object, as \<^verbatim>\<open>if x:\<close> tests it.\<close>

fun py_truthy :: "pyval \<Rightarrow> bool" where
  "py_truthy PNone = False"
| "py_truthy (PBool b) = b"
| "py_truthy (PInt i) = (i \<noteq> 0)"
| "py_truthy (PStr s) = (s \<noteq> [])"
| "py_truthy (PList xs) = (xs \<noteq> [])"
| "py_truthy (PDict d) = (d \<noteq> [])"

text \<open>
  Iteration (\<^verbatim>\<open>for x in v\<close>): a list gives its elements, a dictionary its keys, a
  string its characters; nothing else is iterable.
\<close>

fun py_iter :: "pyval \<Rightarrow> error + pyval list" where
  "py_iter (PList xs) = Inr xs"
| "py_iter (PDict d) = Inr (map (\<lambda>kv. PStr (fst kv)) d)"
| "py_iter (PStr s) = Inr (map (\<lambda>c. PStr [c]) s)"
| "py_iter v = Inl TypeError"

text \<open>\<^verbatim>\<open>len(v)\<close>.\<close>

fun py_len :: "pyval \<Rightarrow> error + nat" where
  "py_len (PList xs) = Inr (length xs)"
| "py_len (PDict d) = Inr (length d)"
| "py_len (PStr s) = Inr (length s)"
| "py_len v = Inl TypeError"

text \<open>
  \<^verbatim>\<open>v[k]\<close> for a string key \<open>k\<close>: a dictionary raises \<^verbatim>\<open>KeyError\<close> for a missing
  key, every other type raises \<^verbatim>\<open>TypeError\<close>.
\<close>

fun py_getitem :: "pyval \<Rightarrow> string \<Rightarrow> error + pyval" where
  "py_getitem (PDict d) k = (case map_of d k of None \<Rightarrow> Inl KeyError | Some v \<Rightarrow> Inr v)"
| "py_getitem v k = Inl TypeError"

text \<open>\<^verbatim>\<open>v[k] = x\<close> for a string key \<open>k\<close>.\<close>

fun py_setitem :: "pyval \<Rightarrow> string \<Rightarrow> pyval \<Rightarrow> error + pyval" where
  "py_setitem (PDict d) k x = Inr (PDict (AList.update k x d))"
| "py_setitem v k x = Inl TypeError"

text \<open>\<^verbatim>\<open>k in s\<close> on strings is the substring test.\<close>

fun is_substr :: "string \<Rightarrow> string \<Rightarrow> bool" where
  "is_substr k [] = (k = [])"
| "is_substr k (c # cs) = (take (length k) (c # cs) = k \<or> is_substr k cs)"

text \<open>
  \<^verbatim>\<open>k in v\<close> for a string \<open>k\<close>: a key of a dictionary, an element of a list, a
  substring of a string; other types raise \<^verbatim>\<open>TypeError\<close>.
\<close>

fun py_contains :: "string \<Rightarrow> pyval \<Rightarrow> error + bool" where
  "py_contains k (PDict d) = Inr (map_of d k \<noteq> None)"
| "py_contains k (PList xs) = Inr (PStr k \<in> set xs)"
| "py_contains k (PStr s) = Inr (is_substr k s)"
| "py_contains k v = Inl TypeError"

text \<open>\<^verbatim>\<open>s.split(c)\<close> for a one-character separator, and \<^verbatim>\<open>sep.join(xs)\<close>.\<close>

fun split_on :: "char \<Rightarrow> string \<Rightarrow> string list" where
  "split_on c [] = [[]]"
| "split_on c (x # xs) =
     (if x = c then [] # split_on c xs
      else (x # hd (split_on c xs)) # tl (split_on c xs))"

fun join :: "string \<Rightarrow> string list \<Rightarrow> string" where
  "join sep [] = []"
| "join sep [x] = x"
| "join sep (x # y # ys) = x @ sep @ join sep (y # ys)"

text \<open>Decimal notation of an integer, as \<^verbatim>\<open>str\<close> prints it.\<close>

fun show_nat :: "nat \<Rightarrow> string" where
  "show_nat n =
     (if n < 10 then [''0123456789'' ! n]
      else show_nat (n div 10) @ [''0123456789'' ! (n mod 10)])"

declare show_nat.simps [simp del]

definition show_int :: "int \<Rightarrow> string" where
  "show_int i = (if i < 0 then CHR ''-'' # show_nat (nat (- i)) else show_nat (nat i))"

text \<open>\<^verbatim>\<open>str(v)\<close>, which is also what the format \<^verbatim>\<open>%s\<close> inserts.\<close>

fun py_str :: "container_str \<Rightarrow> pyval \<Rightarrow> string" where
  "py_str cstr (PStr s) = s"
| "py_str cstr (PInt i) = show_int i"
| "py_str cstr (PBool b) = (if b then ''True'' else ''False'')"
| "py_str cstr PNone = ''None''"
| "py_str cstr v = cstr v"

text \<open>
  \<^verbatim>\<open>int(v)\<close>: an integer is kept, a boolean is 0 or 1, a string is parsed; \<^verbatim>\<open>None\<close>,
  lists and dictionaries raise \<^verbatim>\<open>TypeError\<close>.
\<close>

fun py_int :: "int_parser \<Rightarrow> pyval \<Rightarrow> error + int" where
  "py_int parse (PInt i) = Inr i"
| "py_int parse (PBool b) = Inr (if b then 1 else 0)"
| "py_int parse (PStr s) = (case parse s of None \<Rightarrow> Inl ValueError | Some i \<Rightarrow> Inr i)"
| "py_int parse v = Inl TypeError"

text \<open>
  Dictionaries with arbitrary keys, as \<^verbatim>\<open>bugdict\<close> in \<^verbatim>\<open>_getbugs\<close>. Lists and
  dictionaries are not hashable; \<^verbatim>\<open>True\<close> and \<^verbatim>\<open>False\<close> are the same keys as 1 and 0.
  \<open>py_dict acc ps\<close> is \<^verbatim>\<open>dict(ps)\<close> for a list of pairs, starting from \<open>acc = []\<close>: a
  later pair replaces an earlier one with the same key.
\<close>

fun hash_key :: "pyval \<Rightarrow> error + pyval" where
  "hash_key (PList xs) = Inl TypeError"
| "hash_key (PDict d) = Inl TypeError"
| "hash_key (PBool b) = Inr (PInt (if b then 1 else 0))"
| "hash_key v = Inr v"

fun py_dict :: "(pyval \<times> pyval) list \<Rightarrow> (pyval \<times> pyval) list \<Rightarrow> error + (pyval \<times> pyval) list" where
  "py_dict acc [] = Inr acc"
| "py_dict acc (kv # ps) =
     and_then (hash_key (fst kv)) (\<lambda>k. py_dict (AList.update k (snd kv) acc) ps)"

text \<open>\<^verbatim>\<open>d.get(k)\<close>: the value, or \<^verbatim>\<open>None\<close> for a missing key.\<close>

definition dict_get :: "(pyval \<times> pyval) list \<Rightarrow> pyval \<Rightarrow> pyval" where
  "dict_get d k = (case map_of d k of None \<Rightarrow> PNone | Some v \<Rightarrow> v)"

subsection \<open>Objects of the caller\<close>

text \<open>
  The query that \<^verbatim>\<open>_query\<close> receives belongs to the caller, and lines 157, 162 and
  165-171 store its lists under new keys and change one of them in place. Two keys, or a
  key and an element of another list, may hold one and the same list object, and then
  each of them shows the change. So the values of a query are modelled with the identity
  of their lists: a list node carries a label; the nodes with the same label \<open>Some a\<close>
  stand for one object (they have the same elements, and none of them lies inside
  itself), and a node with the label \<open>None\<close> is an object that is held nowhere else.
  Strings and numbers cannot be changed, and the code changes no dictionary inside a
  query, so they are plain values. \<open>erase\<close> forgets the labels: it gives the value that
  the proxy receives.
\<close>

datatype obj =
    ONone
  | OBool bool
  | OInt int
  | OStr string
  | OList "nat option" "obj list"
  | ODict "(string \<times> obj) list"

type_synonym odict = "(string \<times> obj) list"

primrec erase :: "obj \<Rightarrow> pyval" where
  "erase ONone = PNone"
| "erase (OBool b) = PBool b"
| "erase (OInt i) = PInt i"
| "erase (OStr s) = PStr s"
| "erase (OList l xs) = PList (map erase xs)"
| "erase (ODict d) = PDict (map (map_prod id erase) d)"

definition erase_dict :: "odict \<Rightarrow> dict" where
  "erase_dict q = map (map_prod id erase) q"


text \<open>
  \<open>assign a ys v\<close>: the value \<open>v\<close> after the list object \<open>a\<close> got the elements \<open>ys\<close>.
  Every node that is this object shows them.
\<close>

primrec assign :: "nat \<Rightarrow> obj list \<Rightarrow> obj \<Rightarrow> obj" where
  "assign a ys ONone = ONone"
| "assign a ys (OBool b) = OBool b"
| "assign a ys (OInt i) = OInt i"
| "assign a ys (OStr s) = OStr s"
| "assign a ys (OList l xs) =
     (if l = Some a then OList l ys else OList l (map (assign a ys) xs))"
| "assign a ys (ODict d) = ODict (map (map_prod id (assign a ys)) d)"

text \<open>\<^verbatim>\<open>q[k]\<close> for a dictionary \<open>q\<close> of such values.\<close>

definition dict_item :: "odict \<Rightarrow> string \<Rightarrow> error + obj" where
  "dict_item q k = (case map_of q k of None \<Rightarrow> Inl KeyError | Some v \<Rightarrow> Inr v)"

text \<open>\<^verbatim>\<open>k in v\<close> for a string \<open>k\<close>, as \<open>py_contains\<close>.\<close>

fun obj_contains :: "string \<Rightarrow> obj \<Rightarrow> error + bool" where
  "obj_contains k (ODict d) = Inr (map_of d k \<noteq> None)"
| "obj_contains k (OList l xs) = Inr (OStr k \<in> set xs)"
| "obj_contains k (OStr s) = Inr (is_substr k s)"
| "obj_contains k v = Inl TypeError"

text \<open>
  \<^verbatim>\<open>v.remove(x)\<close> and \<^verbatim>\<open>v.append(x)\<close> are methods of lists only; \<^verbatim>\<open>remove\<close>
  deletes the first occurrence and raises \<^verbatim>\<open>ValueError\<close> when there is none. The
  two functions give the elements that the list object has afterwards.
\<close>

fun obj_remove :: "obj \<Rightarrow> obj \<Rightarrow> error + obj list" where
  "obj_remove (OList l xs) x = (if x \<in> set xs then Inr (remove1 x xs) else Inl ValueError)"
| "obj_remove v x = Inl AttributeError"

fun obj_append :: "obj \<Rightarrow> obj \<Rightarrow> error + obj list" where
  "obj_append (OList l xs) x = Inr (xs @ [x])"
| "obj_append v x = Inl AttributeError"

text \<open>
  The list object \<open>fields\<close>, which \<^verbatim>\<open>query['include_fields']\<close> holds, gets the elements
  \<open>ys\<close>: a labelled object in every place of the query where it is held, an object without
  a label in the one place where it is.
\<close>

fun store_list :: "obj \<Rightarrow> obj list \<Rightarrow> odict \<Rightarrow> odict" where
  "store_list (OList (Some a) xs) ys q = map (map_prod id (assign a ys)) q"
| "store_list (OList None xs) ys q = AList.update ''include_fields'' (OList None ys) q"
| "store_list v ys q = q"

text \<open>\<^verbatim>\<open>v.split(c)\<close>: a method of strings; the result is a new list.\<close>

fun obj_split :: "obj \<Rightarrow> char \<Rightarrow> error + obj" where
  "obj_split (OStr s) c = Inr (OList None (map OStr (split_on c s)))"
| "obj_split v c = Inl AttributeError"

section \<open>The adapter\<close>

subsection \<open>\<^verbatim>\<open>_getbugs\<close> (lines 58-64)\<close>

text \<open>
  \<^verbatim>\<open>idlist = map(lambda i: int(i), idlist)\<close>, the remote call with
  \<^verbatim>\<open>{'ids': idlist, 'permissive': 1}\<close>, then \<^verbatim>\<open>bugdict\<close> from the records of
  \<^verbatim>\<open>r['bugs']\<close> and one \<^verbatim>\<open>bugdict.get(i)\<close> for each id.
\<close>

definition getbugs :: "int_parser \<Rightarrow> proxy \<Rightarrow> pyval list \<Rightarrow> outcome" where
  "getbugs parse proxy idlist =
     (case map_err (py_int parse) idlist of
        Inl e \<Rightarrow> ([], Inl e)
      | Inr ids \<Rightarrow>
          let params = PDict [(''ids'', PList (map PInt ids)), (''permissive'', PInt 1)] in
          ([(''Bug.get_bugs'', params)],
           and_then (proxy ''Bug.get_bugs'' params) (\<lambda>r.
           and_then (py_getitem r ''bugs'') (\<lambda>bugs.
           and_then (py_iter bugs) (\<lambda>bs.
           and_then (map_err (\<lambda>b. and_then (py_getitem b ''id'') (\<lambda>k. Inr (k, b))) bs) (\<lambda>pairs.
           and_then (py_dict [] pairs) (\<lambda>bugdict.
           Inr (PList (map (\<lambda>i. dict_get bugdict (PInt i)) ids)))))))))"

subsection \<open>\<^verbatim>\<open>_addcomment\<close> (lines 94-106)\<close>

text \<open>
  The defaults of the keyword arguments are \<^verbatim>\<open>private=False\<close>,
  \<^verbatim>\<open>timestamp=''\<close>, \<^verbatim>\<open>worktime=''\<close> and \<^verbatim>\<open>bz_gid=''\<close>; here every argument is given.
\<close>

definition addcomment ::
  "proxy \<Rightarrow> pyval \<Rightarrow> pyval \<Rightarrow> pyval \<Rightarrow> pyval \<Rightarrow> pyval \<Rightarrow> pyval \<Rightarrow> outcome" where
  "addcomment proxy id' comment private timestamp worktime bz_gid =
     (let params = PDict [(''id'', id'), (''comment'', comment),
                          (''private'', private), (''work_time'', worktime)]
      in ([(''Bug.add_comment'', params)], proxy ''Bug.add_comment'' params))"

subsection \<open>\<^verbatim>\<open>_getusers\<close> (lines 108-135)\<close>

text \<open>The default of each of the three arguments is \<^verbatim>\<open>None\<close>.\<close>

definition getusers :: "proxy \<Rightarrow> pyval \<Rightarrow> pyval \<Rightarrow> pyval \<Rightarrow> outcome" where
  "getusers proxy ids names match =
     (let params = [];
          params = (if py_truthy ids then AList.update ''ids'' ids params else params);
          params = (if py_truthy names then AList.update ''names'' names params else params);
          params = (if py_truthy match then AList.update ''match'' match params else params)
      in if \<not> py_truthy (PDict params) then ([], Inl NeedParamError)
         else ([(''User.get'', PDict params)], proxy ''User.get'' (PDict params)))"

subsection \<open>\<^verbatim>\<open>_query\<close> (lines 137-191)\<close>

text \<open>Lines 153-158: \<^verbatim>\<open>bug_id\<close> becomes \<^verbatim>\<open>id\<close>.\<close>

definition norm_bug_id :: "odict \<Rightarrow> error + odict" where
  "norm_bug_id q =
     (case map_of q ''bug_id'' of
        None \<Rightarrow> Inr q
      | Some v \<Rightarrow>
          and_then (case v of OList l xs \<Rightarrow> Inr v | _ \<Rightarrow> obj_split v CHR '','') (\<lambda>ids.
          Inr (AList.delete ''bug_id'' (AList.update ''id'' ids q))))"

text \<open>Lines 160-163: \<^verbatim>\<open>include_fields\<close> is set, from \<^verbatim>\<open>column_list\<close> when there is one.\<close>

definition norm_column_list :: "odict \<Rightarrow> odict" where
  "norm_column_list q =
     (let q = AList.update ''include_fields'' (OList None []) q in
      case map_of q ''column_list'' of
        None \<Rightarrow> q
      | Some v \<Rightarrow> AList.delete ''column_list'' (AList.update ''include_fields'' v q))"

text \<open>
  Lines 165-167 with \<open>old = ''blockedby''\<close>, \<open>new = ''blocks''\<close> and lines 169-171 with
  \<open>old = ''bug_id''\<close>, \<open>new = ''id''\<close>: the list object that \<^verbatim>\<open>query['include_fields']\<close>
  holds is changed in place, first by \<^verbatim>\<open>remove(old)\<close>, then by \<^verbatim>\<open>append(new)\<close>.
\<close>

definition replace_field :: "string \<Rightarrow> string \<Rightarrow> odict \<Rightarrow> error + odict" where
  "replace_field old new q =
     and_then (dict_item q ''include_fields'') (\<lambda>fields.
     and_then (obj_contains old fields) (\<lambda>found.
       if found then
         and_then (obj_remove fields (OStr old)) (\<lambda>ys.
         let q = store_list fields ys q in
         and_then (dict_item q ''include_fields'') (\<lambda>fields.
         and_then (obj_append fields (OStr new)) (\<lambda>ys.
         Inr (store_list fields ys q))))
       else Inr q))"

text \<open>Lines 153-171: the query object when the remote call is made.\<close>

definition query_prepare :: "odict \<Rightarrow> error + odict" where
  "query_prepare q =
     and_then (norm_bug_id q) (\<lambda>q.
     and_then (replace_field ''blockedby'' ''blocks'' (norm_column_list q)) (\<lambda>q.
     replace_field ''bug_id'' ''id'' q))"

text \<open>The query as it is sent: the value of that object.\<close>

definition query_normalize :: "odict \<Rightarrow> error + dict" where
  "query_normalize q = and_then (query_prepare q) (\<lambda>q. Inr (erase_dict q))"

text \<open>Lines 177-182, the first rule of the loop body: \<^verbatim>\<open>flags\<close>.\<close>

definition flag_str :: "container_str \<Rightarrow> pyval \<Rightarrow> error + string" where
  "flag_str cstr tmp =
     and_then (py_getitem tmp ''name'') (\<lambda>name.
     and_then (py_getitem tmp ''status'') (\<lambda>status.
     Inr (py_str cstr name @ py_str cstr status)))"

definition fix_flags :: "container_str \<Rightarrow> pyval \<Rightarrow> error + pyval" where
  "fix_flags cstr bug =
     and_then (py_contains ''flags'' bug) (\<lambda>has.
       if has then
         and_then (py_getitem bug ''flags'') (\<lambda>flags.
         and_then (py_iter flags) (\<lambda>entries.
         and_then (map_err (flag_str cstr) entries) (\<lambda>tmpstr.
         py_setitem bug ''flags'' (PStr (join '','' tmpstr)))))
       else Inr bug)"

text \<open>Lines 183-187, the second rule: \<^verbatim>\<open>blockedby\<close> from \<^verbatim>\<open>blocks\<close>.\<close>

definition fix_blocks :: "container_str \<Rightarrow> pyval \<Rightarrow> error + pyval" where
  "fix_blocks cstr bug =
     and_then (py_contains ''blocks'' bug) (\<lambda>has.
       if has then
         and_then (py_getitem bug ''blocks'') (\<lambda>blocks.
         and_then (py_len blocks) (\<lambda>n.
           if n > 0 then
             and_then (py_getitem bug ''blocks'') (\<lambda>blocks.
             and_then (py_iter blocks) (\<lambda>xs.
             py_setitem bug ''blockedby'' (PStr (join '','' (map (py_str cstr) xs)))))
           else py_setitem bug ''blockedby'' (PStr [])))
       else Inr bug)"

text \<open>Lines 188-189, the third rule: \<^verbatim>\<open>bug_id\<close> from \<^verbatim>\<open>id\<close>.\<close>

definition fix_id :: "pyval \<Rightarrow> error + pyval" where
  "fix_id bug =
     and_then (py_contains ''id'' bug) (\<lambda>has.
       if has then and_then (py_getitem bug ''id'') (\<lambda>v. py_setitem bug ''bug_id'' v)
       else Inr bug)"

text \<open>The body of the loop over \<^verbatim>\<open>ret['bugs']\<close>.\<close>

definition fix_bug :: "container_str \<Rightarrow> pyval \<Rightarrow> error + pyval" where
  "fix_bug cstr bug =
     and_then (fix_flags cstr bug) (\<lambda>bug.
     and_then (fix_blocks cstr bug) (\<lambda>bug.
     fix_id bug))"

text \<open>
  The loop changes the records in place. When \<^verbatim>\<open>ret['bugs']\<close> is a list, \<^verbatim>\<open>ret\<close>
  then holds the new records; the elements of a dictionary or of a string are strings,
  which the loop body cannot change.
\<close>

definition with_bugs :: "pyval \<Rightarrow> pyval \<Rightarrow> pyval list \<Rightarrow> pyval" where
  "with_bugs ret bugs bs =
     (case ret of
        PDict r \<Rightarrow> (case bugs of PList xs \<Rightarrow> PDict (AList.update ''bugs'' (PList bs) r) | _ \<Rightarrow> ret)
      | _ \<Rightarrow> ret)"

definition query :: "container_str \<Rightarrow> proxy \<Rightarrow> odict \<Rightarrow> outcome" where
  "query cstr proxy q =
     (case query_normalize q of
        Inl e \<Rightarrow> ([], Inl e)
      | Inr q \<Rightarrow>
          ([(''Bug.search'', PDict q)],
           and_then (proxy ''Bug.search'' (PDict q)) (\<lambda>ret.
           and_then (py_getitem ret ''bugs'') (\<lambda>bugs.
           and_then (py_iter bugs) (\<lambda>bs.
           and_then (map_err (fix_bug cstr) bs) (\<lambda>bs'.
           Inr (with_bugs ret bugs bs')))))))"

subsection \<open>\<^verbatim>\<open>_getbugfields\<close> (lines 193-198)\<close>

definition getbugfields :: "proxy \<Rightarrow> outcome" where
  "getbugfields proxy =
     (let params = PDict [(''include_fields'', PList [PStr ''name''])] in
      ([(''Bug.fields'', params)],
       and_then (proxy ''Bug.fields'' params) (\<lambda>r.
       and_then (py_getitem r ''fields'') (\<lambda>fields.
       and_then (py_iter fields) (\<lambda>fs.
       and_then (map_err (\<lambda>f. py_getitem f ''name'') fs) (\<lambda>tmp.
       Inr (PList (tmp @ [PStr ''blockedby'']))))))))"


section \<open>Notions of the specification\<close>

text \<open>
  An id is integer-like when \<^verbatim>\<open>int\<close> accepts it: an integer, a boolean, or a string
  that the interpreter parses as an integer.
\<close>

fun int_like :: "int_parser \<Rightarrow> pyval \<Rightarrow> bool" where
  "int_like parse (PInt i) = True"
| "int_like parse (PBool b) = True"
| "int_like parse (PStr s) = (parse s \<noteq> None)"
| "int_like parse v = False"

text \<open>What the service may send as the id of a record for \<^verbatim>\<open>dict\<close> to accept it as a key.\<close>

fun hashable :: "pyval \<Rightarrow> bool" where
  "hashable (PList xs) = False"
| "hashable (PDict d) = False"
| "hashable v = True"

text \<open>
  \<open>has_id b n\<close>: \<open>b\<close> is a record whose \<^verbatim>\<open>id\<close> equals the integer \<open>n\<close>, as Python's
  \<^verbatim>\<open>==\<close> compares a value with an integer.
\<close>

fun py_eq_int :: "pyval \<Rightarrow> int \<Rightarrow> bool" where
  "py_eq_int (PInt i) n = (i = n)"
| "py_eq_int (PBool b) n = ((if b then 1 else 0) = n)"
| "py_eq_int v n = False"

definition has_id :: "pyval \<Rightarrow> int \<Rightarrow> bool" where
  "has_id b n = (case py_getitem b ''id'' of Inl e \<Rightarrow> False | Inr k \<Rightarrow> py_eq_int k n)"



text \<open>
  A well-formed record of a search response: a mapping whose \<^verbatim>\<open>flags\<close>, when present, is
  a list of mappings that each have a \<^verbatim>\<open>name\<close> and a \<^verbatim>\<open>status\<close>, and whose
  \<^verbatim>\<open>blocks\<close>, when present, is a list.
\<close>

fun wf_flag :: "pyval \<Rightarrow> bool" where
  "wf_flag (PDict e) = (map_of e ''name'' \<noteq> None \<and> map_of e ''status'' \<noteq> None)"
| "wf_flag v = False"

fun wf_flags :: "pyval option \<Rightarrow> bool" where
  "wf_flags None = True"
| "wf_flags (Some (PList es)) = list_all wf_flag es"
| "wf_flags (Some v) = False"

fun wf_blocks :: "pyval option \<Rightarrow> bool" where
  "wf_blocks None = True"
| "wf_blocks (Some (PList xs)) = True"
| "wf_blocks (Some v) = False"

fun wf_bug :: "pyval \<Rightarrow> bool" where
  "wf_bug (PDict d) = (wf_flags (map_of d ''flags'') \<and> wf_blocks (map_of d ''blocks''))"
| "wf_bug v = False"

text \<open>
  The text of one flag: its name followed by its status, each as \<^verbatim>\<open>%s\<close> formats it
  (and the empty string for an entry without a name or a status, which the loop rejects).
\<close>

fun name_status :: "container_str \<Rightarrow> pyval \<Rightarrow> string" where
  "name_status cstr (PDict e) =
     (case map_of e ''name'' of
        None \<Rightarrow> []
      | Some name \<Rightarrow>
          (case map_of e ''status'' of None \<Rightarrow> [] | Some status \<Rightarrow> py_str cstr name @ py_str cstr status))"
| "name_status cstr v = []"

section \<open>Stand-ins for the examples\<close>

text \<open>A proxy that answers every call with the response \<open>r\<close>.\<close>

definition answer :: "pyval \<Rightarrow> proxy" where
  "answer r method params = Inr r"

text \<open>
  An instance of \<^verbatim>\<open>int\<close> on strings for the examples: it reads the non-empty strings of
  decimal digits, and rejects every other string.
\<close>

definition digits_int :: int_parser where
  "digits_int s =
     (if s \<noteq> [] \<and> list_all (\<lambda>c. c \<in> set ''0123456789'') s
      then Some (foldl (\<lambda>n c. 10 * n + (of_char c - 48)) 0 s) else None)"

text \<open>An instance of \<^verbatim>\<open>str\<close> on lists and dictionaries for the examples.\<close>

definition brackets :: container_str where
  "brackets v = ''[...]''"

section \<open>Sequencing\<close>

lemma and_then_Inl: "and_then (Inl e) f = Inl e"
  by (simp add: and_then_def)

lemma and_then_Inr: "and_then (Inr x) f = f x"
  by (simp add: and_then_def)

lemma map_err_Inr_iff:
  "map_err f xs = Inr ys \<longleftrightarrow> list_all2 (\<lambda>x y. f x = Inr y) xs ys"
proof (induction xs arbitrary: ys)
  case Nil
  show ?case by auto
next
  case (Cons x xs)
  show ?case
  proof (cases "f x")
    case (Inl e)
    then show ?thesis by (auto simp: and_then_Inl list_all2_Cons1)
  next
    case fx: (Inr y)
    show ?thesis
    proof (cases "map_err f xs")
      case (Inl e)
      with fx Cons.IH show ?thesis
        by (auto simp: and_then_Inl and_then_Inr list_all2_Cons1)
    next
      case (Inr zs)
      with fx Cons.IH show ?thesis
        by (auto simp: and_then_Inr list_all2_Cons1)
    qed
  qed
qed

lemma map_err_Inl_elem:
  "map_err f xs = Inl e \<Longrightarrow> \<exists>x\<in>set xs. f x = Inl e"
proof (induction xs)
  case Nil
  then show ?case by simp
next
  case (Cons x xs)
  then show ?case
    by (cases "f x"; cases "map_err f xs") (auto simp: and_then_Inl and_then_Inr)
qed

lemma map_err_total:
  "(\<forall>x\<in>set xs. \<exists>y. f x = Inr y) \<Longrightarrow> \<exists>ys. map_err f xs = Inr ys"
proof (induction xs)
  case Nil
  show ?case by simp
next
  case (Cons x xs)
  then obtain y ys where "f x = Inr y" "map_err f xs = Inr ys" by auto
  then show ?case by (simp add: and_then_Inr)
qed

lemma list_all2_left_elem:
  assumes "list_all2 P xs ys" and "x \<in> set xs"
  shows "\<exists>y\<in>set ys. P x y"
proof -
  from assms(2) obtain i where i: "i < length xs" "xs ! i = x"
    by (auto simp: in_set_conv_nth)
  with assms(1) have "P x (ys ! i)" "i < length ys"
    by (auto simp: list_all2_conv_all_nth)
  then show ?thesis using nth_mem by blast
qed

lemma list_all2_right_elem:
  assumes "list_all2 P xs ys" and "y \<in> set ys"
  shows "\<exists>x\<in>set xs. P x y"
proof -
  from assms(2) obtain i where i: "i < length ys" "ys ! i = y"
    by (auto simp: in_set_conv_nth)
  with assms(1) have "P (xs ! i) y" "i < length xs"
    by (auto simp: list_all2_conv_all_nth)
  then show ?thesis using nth_mem by blast
qed

section \<open>\<^verbatim>\<open>_getbugs\<close>\<close>

lemma py_int_Inr_iff: "(\<exists>n. py_int parse v = Inr n) \<longleftrightarrow> int_like parse v"
  by (cases v) (auto split: option.splits)

lemma py_int_Inl: "py_int parse v = Inl e \<Longrightarrow> e = TypeError \<or> e = ValueError"
  by (cases v) (auto split: option.splits)

lemma hash_key_int: "hash_key k = Inr (PInt n) \<longleftrightarrow> py_eq_int k n"
  by (cases k) auto

lemma hash_key_total: "hashable k \<Longrightarrow> \<exists>k'. hash_key k = Inr k'"
  by (cases k) auto

lemma py_dict_total:
  "\<forall>kv\<in>set ps. hashable (fst kv) \<Longrightarrow> \<exists>d. py_dict acc ps = Inr d"
proof (induction ps arbitrary: acc)
  case Nil
  show ?case by simp
next
  case (Cons kv ps)
  then obtain k where "hash_key (fst kv) = Inr k"
    using hash_key_total by fastforce
  with Cons show ?case by (simp add: and_then_Inr)
qed

lemma py_dict_Some:
  "py_dict acc ps = Inr d \<Longrightarrow> map_of d key = Some v \<Longrightarrow>
     map_of acc key = Some v \<or> (\<exists>kv\<in>set ps. hash_key (fst kv) = Inr key \<and> snd kv = v)"
proof (induction ps arbitrary: acc)
  case Nil
  then show ?case by simp
next
  case (Cons kv ps)
  from Cons.prems(1) obtain k where k: "hash_key (fst kv) = Inr k"
    and rest: "py_dict (AList.update k (snd kv) acc) ps = Inr d"
    by (cases "hash_key (fst kv)") (auto simp: and_then_Inl and_then_Inr)
  from Cons.IH [OF rest Cons.prems(2)]
  show ?case using k by (auto simp: update_conv' split: if_splits)
qed

lemma py_dict_None:
  "py_dict acc ps = Inr d \<Longrightarrow> map_of d key = None \<Longrightarrow>
     map_of acc key = None \<and> (\<forall>kv\<in>set ps. hash_key (fst kv) \<noteq> Inr key)"
proof (induction ps arbitrary: acc)
  case Nil
  then show ?case by simp
next
  case (Cons kv ps)
  from Cons.prems(1) obtain k where k: "hash_key (fst kv) = Inr k"
    and rest: "py_dict (AList.update k (snd kv) acc) ps = Inr d"
    by (cases "hash_key (fst kv)") (auto simp: and_then_Inl and_then_Inr)
  from Cons.IH [OF rest Cons.prems(2)]
  show ?case using k by (auto simp: update_conv' split: if_splits)
qed

lemma has_id_iff:
  "py_getitem b ''id'' = Inr k \<Longrightarrow> has_id b n \<longleftrightarrow> hash_key k = Inr (PInt n)"
  by (simp add: has_id_def hash_key_int)

lemma bugdict_lookup:
  assumes pairs: "list_all2 (\<lambda>b p. py_getitem b ''id'' = Inr (fst p) \<and> snd p = b) bugs pairs"
    and dict: "py_dict [] pairs = Inr bugdict"
  shows "if \<exists>b\<in>set bugs. has_id b n
         then dict_get bugdict (PInt n) \<in> set bugs \<and> has_id (dict_get bugdict (PInt n)) n
         else dict_get bugdict (PInt n) = PNone"
proof (cases "map_of bugdict (PInt n)")
  case None
  from py_dict_None [OF dict None]
  have no: "\<forall>p\<in>set pairs. hash_key (fst p) \<noteq> Inr (PInt n)" by simp
  have "\<not> has_id b n" if "b \<in> set bugs" for b
  proof -
    from list_all2_left_elem [OF pairs that]
    obtain p where "p \<in> set pairs" "py_getitem b ''id'' = Inr (fst p)" by auto
    with no show ?thesis by (simp add: has_id_iff)
  qed
  with None show ?thesis by (auto simp: dict_get_def)
next
  case (Some v)
  from py_dict_Some [OF dict Some]
  obtain p where p: "p \<in> set pairs" "hash_key (fst p) = Inr (PInt n)" "snd p = v"
    by auto
  from list_all2_right_elem [OF pairs p(1)]
  obtain b where "b \<in> set bugs" "py_getitem b ''id'' = Inr (fst p)" "snd p = b" by auto
  with p have "v \<in> set bugs" "has_id v n" by (auto simp: has_id_iff)
  with Some show ?thesis by (auto simp: dict_get_def)
qed

lemma getbugs_converted:
  assumes "map_err (py_int parse) idlist = Inr ids"
  shows "getbugs parse proxy idlist =
     (let params = PDict [(''ids'', PList (map PInt ids)), (''permissive'', PInt 1)] in
          ([(''Bug.get_bugs'', params)],
           and_then (proxy ''Bug.get_bugs'' params) (\<lambda>r.
           and_then (py_getitem r ''bugs'') (\<lambda>bugs.
           and_then (py_iter bugs) (\<lambda>bs.
           and_then (map_err (\<lambda>b. and_then (py_getitem b ''id'') (\<lambda>k. Inr (k, b))) bs) (\<lambda>pairs.
           and_then (py_dict [] pairs) (\<lambda>bugdict.
           Inr (PList (map (\<lambda>i. dict_get bugdict (PInt i)) ids)))))))))"
  using assms by (simp add: getbugs_def)

lemma getbugs_result:
  assumes conv: "map_err (py_int parse) idlist = Inr ids"
    and resp: "proxy ''Bug.get_bugs''
                 (PDict [(''ids'', PList (map PInt ids)), (''permissive'', PInt 1)]) = Inr (PDict r)"
    and bugs: "map_of r ''bugs'' = Some (PList bugs)"
    and wf: "\<forall>b\<in>set bugs. \<exists>d k. b = PDict d \<and> map_of d ''id'' = Some k \<and> hashable k"
  shows "\<exists>pairs bugdict.
           list_all2 (\<lambda>b p. py_getitem b ''id'' = Inr (fst p) \<and> snd p = b) bugs pairs
         \<and> py_dict [] pairs = Inr bugdict
         \<and> snd (getbugs parse proxy idlist) = Inr (PList (map (\<lambda>i. dict_get bugdict (PInt i)) ids))"
proof -
  let ?pair = "\<lambda>b. and_then (py_getitem b ''id'') (\<lambda>k. Inr (k, b))"
  have "\<exists>p. ?pair b = Inr p" if "b \<in> set bugs" for b
  proof -
    from wf that obtain d k where "b = PDict d" "map_of d ''id'' = Some k" by blast
    then show ?thesis by (simp add: and_then_Inr)
  qed
  then have "\<forall>b\<in>set bugs. \<exists>p. ?pair b = Inr p" by blast
  then have "\<exists>pairs. map_err ?pair bugs = Inr pairs"
    by (rule map_err_total)
  then obtain pairs where pairs: "map_err ?pair bugs = Inr pairs" ..
  then have all2: "list_all2 (\<lambda>b p. ?pair b = Inr p) bugs pairs"
    by (simp add: map_err_Inr_iff)
  have rel: "list_all2 (\<lambda>b p. py_getitem b ''id'' = Inr (fst p) \<and> snd p = b) bugs pairs"
  proof (rule list_all2_mono [OF all2])
    fix b p assume "?pair b = Inr p"
    then show "py_getitem b ''id'' = Inr (fst p) \<and> snd p = b"
      by (cases "py_getitem b ''id''") (auto simp: and_then_Inl and_then_Inr)
  qed
  have "hashable (fst p)" if "p \<in> set pairs" for p
  proof -
    from list_all2_right_elem [OF rel that]
    obtain b where b: "b \<in> set bugs" "py_getitem b ''id'' = Inr (fst p)" by auto
    from wf b(1) obtain d k where "b = PDict d" "map_of d ''id'' = Some k" "hashable k" by blast
    with b(2) show ?thesis by simp
  qed
  then have "\<forall>p\<in>set pairs. hashable (fst p)" by blast
  then have "\<exists>bugdict. py_dict [] pairs = Inr bugdict"
    by (rule py_dict_total)
  then obtain bugdict where dict: "py_dict [] pairs = Inr bugdict" ..
  have "py_getitem (PDict r) ''bugs'' = Inr (PList bugs)"
    using bugs by simp
  then have "snd (getbugs parse proxy idlist) = Inr (PList (map (\<lambda>i. dict_get bugdict (PInt i)) ids))"
    unfolding getbugs_converted [OF conv] Let_def snd_conv resp and_then_Inr
    by (simp only: py_iter.simps pairs dict and_then_Inr)
  with rel dict show ?thesis by blast
qed

text \<open>
  Claim C1. Let every id of the list convert to an integer, and let the service answer
  \<^verbatim>\<open>Bug.get_bugs\<close> with a mapping whose \<^verbatim>\<open>bugs\<close> is a list of records, each with a
  hashable \<^verbatim>\<open>id\<close>, in any order and for any subset of the ids. Then \<^verbatim>\<open>_getbugs\<close>
  returns a list as long as the id list, and its element \<open>i\<close> is a record of the response
  whose id equals the integer of \<open>idlist ! i\<close> when the response has such a record, and
  \<^verbatim>\<open>None\<close> otherwise.
\<close>

theorem getbugs_aligned:
  assumes conv: "map_err (py_int parse) idlist = Inr ids"
    and resp: "proxy ''Bug.get_bugs''
                 (PDict [(''ids'', PList (map PInt ids)), (''permissive'', PInt 1)]) = Inr (PDict r)"
    and bugs: "map_of r ''bugs'' = Some (PList bugs)"
    and wf: "\<forall>b\<in>set bugs. \<exists>d k. b = PDict d \<and> map_of d ''id'' = Some k \<and> hashable k"
  shows "\<exists>out. snd (getbugs parse proxy idlist) = Inr (PList out)
           \<and> length out = length idlist
           \<and> (\<forall>i<length idlist. \<exists>n. py_int parse (idlist ! i) = Inr n \<and>
                (if \<exists>b\<in>set bugs. has_id b n
                 then out ! i \<in> set bugs \<and> has_id (out ! i) n
                 else out ! i = PNone))"
proof -
  have "\<exists>pairs bugdict.
           list_all2 (\<lambda>b p. py_getitem b ''id'' = Inr (fst p) \<and> snd p = b) bugs pairs
         \<and> py_dict [] pairs = Inr bugdict
         \<and> snd (getbugs parse proxy idlist) = Inr (PList (map (\<lambda>i. dict_get bugdict (PInt i)) ids))"
    using conv resp bugs wf by (rule getbugs_result)
  then obtain pairs bugdict where
    rel: "list_all2 (\<lambda>b p. py_getitem b ''id'' = Inr (fst p) \<and> snd p = b) bugs pairs"
    and dict: "py_dict [] pairs = Inr bugdict"
    and res: "snd (getbugs parse proxy idlist) = Inr (PList (map (\<lambda>i. dict_get bugdict (PInt i)) ids))"
    by blast
  let ?out = "map (\<lambda>i. dict_get bugdict (PInt i)) ids"
  from conv have all2: "list_all2 (\<lambda>v n. py_int parse v = Inr n) idlist ids"
    by (simp add: map_err_Inr_iff)
  then have len: "length ids = length idlist"
    by (simp add: list_all2_lengthD)
  have each: "\<exists>n. py_int parse (idlist ! i) = Inr n \<and>
          (if \<exists>b\<in>set bugs. has_id b n
           then ?out ! i \<in> set bugs \<and> has_id (?out ! i) n
           else ?out ! i = PNone)" if "i < length idlist" for i
  proof -
    from all2 that have "py_int parse (idlist ! i) = Inr (ids ! i)"
      by (simp add: list_all2_conv_all_nth)
    moreover from that len have "?out ! i = dict_get bugdict (PInt (ids ! i))"
      by simp
    ultimately show ?thesis
      using bugdict_lookup [OF rel dict, of "ids ! i"] by simp
  qed
  show ?thesis
  proof (intro exI conjI)
    show "snd (getbugs parse proxy idlist) = Inr (PList ?out)" by (rule res)
    show "length ?out = length idlist" using len by simp
    show "\<forall>i<length idlist. \<exists>n. py_int parse (idlist ! i) = Inr n \<and>
          (if \<exists>b\<in>set bugs. has_id b n
           then ?out ! i \<in> set bugs \<and> has_id (?out ! i) n
           else ?out ! i = PNone)"
      using each by blast
  qed
qed

text \<open>Ids 3, '1' and 2 against a response that holds the records 2 and 3, in this order.\<close>

theorem getbugs_aligned_witness:
  "snd (getbugs digits_int
          (answer (PDict [(''bugs'', PList [PDict [(''id'', PInt 2)],
                                            PDict [(''id'', PInt 3), (''summary'', PStr ''c'')]])]))
          [PInt 3, PStr ''1'', PInt 2])
     = Inr (PList [PDict [(''id'', PInt 3), (''summary'', PStr ''c'')], PNone, PDict [(''id'', PInt 2)]])"
  using getbugs_aligned [where parse = digits_int
      and proxy = "answer (PDict [(''bugs'', PList [PDict [(''id'', PInt 2)],
                                            PDict [(''id'', PInt 3), (''summary'', PStr ''c'')]])])"
      and idlist = "[PInt 3, PStr ''1'', PInt 2]" and ids = "[3, 1, 2]"
      and r = "[(''bugs'', PList [PDict [(''id'', PInt 2)],
                                  PDict [(''id'', PInt 3), (''summary'', PStr ''c'')]])]"
      and bugs = "[PDict [(''id'', PInt 2)], PDict [(''id'', PInt 3), (''summary'', PStr ''c'')]]"]
  by (simp add: getbugs_def answer_def digits_int_def and_then_def dict_get_def)

text \<open>
  Claim C9. When every element of the id list is integer-like, the conversion
  \<^verbatim>\<open>map(lambda i: int(i), idlist)\<close> succeeds, element by element, and the integers are
  what the remote call receives as \<^verbatim>\<open>ids\<close>. When some element is not integer-like,
  \<^verbatim>\<open>_getbugs\<close> makes no remote call and raises \<^verbatim>\<open>TypeError\<close> or \<^verbatim>\<open>ValueError\<close>,
  the interpreter's own conversion errors.
\<close>

theorem getbugs_conversion:
  "((\<forall>v\<in>set idlist. int_like parse v) \<longrightarrow>
      (\<exists>ids. map_err (py_int parse) idlist = Inr ids
         \<and> length ids = length idlist
         \<and> (\<forall>i<length idlist. py_int parse (idlist ! i) = Inr (ids ! i))
         \<and> fst (getbugs parse proxy idlist) =
             [(''Bug.get_bugs'', PDict [(''ids'', PList (map PInt ids)), (''permissive'', PInt 1)])]))
   \<and> ((\<exists>v\<in>set idlist. \<not> int_like parse v) \<longrightarrow>
      (\<exists>e. getbugs parse proxy idlist = ([], Inl e) \<and> (e = TypeError \<or> e = ValueError)))"
proof (intro conjI impI)
  assume "\<forall>v\<in>set idlist. int_like parse v"
  then have "\<forall>v\<in>set idlist. \<exists>n. py_int parse v = Inr n"
    by (simp add: py_int_Inr_iff)
  then have "\<exists>ids. map_err (py_int parse) idlist = Inr ids"
    by (rule map_err_total)
  then obtain ids where conv: "map_err (py_int parse) idlist = Inr ids" ..
  then have all2: "list_all2 (\<lambda>v n. py_int parse v = Inr n) idlist ids"
    by (simp add: map_err_Inr_iff)
  then have "length ids = length idlist"
    and "\<forall>i<length idlist. py_int parse (idlist ! i) = Inr (ids ! i)"
    by (simp_all add: list_all2_conv_all_nth)
  moreover have "fst (getbugs parse proxy idlist) =
             [(''Bug.get_bugs'', PDict [(''ids'', PList (map PInt ids)), (''permissive'', PInt 1)])]"
    unfolding getbugs_converted [OF conv] Let_def by simp
  ultimately show "\<exists>ids. map_err (py_int parse) idlist = Inr ids
         \<and> length ids = length idlist
         \<and> (\<forall>i<length idlist. py_int parse (idlist ! i) = Inr (ids ! i))
         \<and> fst (getbugs parse proxy idlist) =
             [(''Bug.get_bugs'', PDict [(''ids'', PList (map PInt ids)), (''permissive'', PInt 1)])]"
    using conv by blast
next
  assume "\<exists>v\<in>set idlist. \<not> int_like parse v"
  then obtain v where v: "v \<in> set idlist" "\<not> int_like parse v" ..
  have "map_err (py_int parse) idlist \<noteq> Inr ids" for ids
  proof
    assume "map_err (py_int parse) idlist = Inr ids"
    then have "list_all2 (\<lambda>v n. py_int parse v = Inr n) idlist ids"
      by (simp add: map_err_Inr_iff)
    from list_all2_left_elem [OF this v(1)] v(2) show False
      using py_int_Inr_iff [of parse v] by blast
  qed
  then obtain e where e: "map_err (py_int parse) idlist = Inl e"
    by (cases "map_err (py_int parse) idlist") auto
  from map_err_Inl_elem [OF e] have "e = TypeError \<or> e = ValueError"
    using py_int_Inl by blast
  with e show "\<exists>e. getbugs parse proxy idlist = ([], Inl e) \<and> (e = TypeError \<or> e = ValueError)"
    by (simp add: getbugs_def)
qed

theorem getbugs_conversion_witness:
  "fst (getbugs digits_int (answer (PDict [(''bugs'', PList [])])) [PInt 3, PStr ''12'', PBool True]) =
     [(''Bug.get_bugs'', PDict [(''ids'', PList [PInt 3, PInt 12, PInt 1]), (''permissive'', PInt 1)])]
   \<and> getbugs digits_int (answer (PDict [(''bugs'', PList [])])) [PInt 3, PStr ''x'', PNone] =
       ([], Inl ValueError)
   \<and> getbugs digits_int (answer (PDict [(''bugs'', PList [])])) [PInt 3, PNone, PStr ''x''] =
       ([], Inl TypeError)"
  using getbugs_conversion [where parse = digits_int
        and proxy = "answer (PDict [(''bugs'', PList [])])"
        and idlist = "[PInt 3, PStr ''12'', PBool True]"]
    getbugs_conversion [where parse = digits_int
        and proxy = "answer (PDict [(''bugs'', PList [])])"
        and idlist = "[PInt 3, PStr ''x'', PNone]"]
    getbugs_conversion [where parse = digits_int
        and proxy = "answer (PDict [(''bugs'', PList [])])"
        and idlist = "[PInt 3, PNone, PStr ''x'']"]
  by (simp add: getbugs_def digits_int_def and_then_def)

section \<open>\<^verbatim>\<open>_addcomment\<close>\<close>

text \<open>
  Claim C7. Whatever the six arguments are, \<^verbatim>\<open>_addcomment\<close> issues one remote call,
  \<^verbatim>\<open>Bug.add_comment\<close>, and returns what it returns. The keys of the parameter mapping are
  exactly \<^verbatim>\<open>id\<close>, \<^verbatim>\<open>comment\<close>, \<^verbatim>\<open>private\<close> and \<^verbatim>\<open>work_time\<close>, with
  \<^verbatim>\<open>work_time\<close> holding the \<^verbatim>\<open>worktime\<close> argument; there is no key for the timestamp
  and none for the group id (under the name \<^verbatim>\<open>bz_gid\<close> of the code or \<^verbatim>\<open>group_tag\<close> of
  the specification).
\<close>

theorem addcomment_params:
  "\<exists>p. addcomment proxy i comment private timestamp worktime bz_gid =
          ([(''Bug.add_comment'', PDict p)], proxy ''Bug.add_comment'' (PDict p))
      \<and> fst ` set p = {''id'', ''comment'', ''private'', ''work_time''}
      \<and> map_of p ''id'' = Some i \<and> map_of p ''comment'' = Some comment
      \<and> map_of p ''private'' = Some private \<and> map_of p ''work_time'' = Some worktime
      \<and> map_of p ''timestamp'' = None \<and> map_of p ''bz_gid'' = None
      \<and> map_of p ''group_tag'' = None"
proof -
  let ?p = "[(''id'', i), (''comment'', comment), (''private'', private), (''work_time'', worktime)]"
  have "addcomment proxy i comment private timestamp worktime bz_gid =
          ([(''Bug.add_comment'', PDict ?p)], proxy ''Bug.add_comment'' (PDict ?p))"
    by (simp add: addcomment_def Let_def)
  moreover have "fst ` set ?p = {''id'', ''comment'', ''private'', ''work_time''}"
    by simp
  moreover have "map_of ?p ''id'' = Some i" "map_of ?p ''comment'' = Some comment"
    "map_of ?p ''private'' = Some private" "map_of ?p ''work_time'' = Some worktime"
    "map_of ?p ''timestamp'' = None" "map_of ?p ''bz_gid'' = None" "map_of ?p ''group_tag'' = None"
    by simp_all
  ultimately show ?thesis by blast
qed

text \<open>The example of the specification: \<^verbatim>\<open>add_comment(id=1, comment='x', timestamp='2020-01-01')\<close>.\<close>

theorem addcomment_params_witness:
  "\<exists>p. fst (addcomment (answer PNone) (PInt 1) (PStr ''x'') (PBool False)
              (PStr ''2020-01-01'') (PStr []) (PStr [])) = [(''Bug.add_comment'', PDict p)]
      \<and> map_of p ''timestamp'' = None \<and> map_of p ''work_time'' = Some (PStr [])"
  using addcomment_params [of "answer PNone" "PInt 1" "PStr ''x''" "PBool False"
      "PStr ''2020-01-01''" "PStr []" "PStr []"]
  by (elim exE conjE) simp

section \<open>\<^verbatim>\<open>_getusers\<close>\<close>

lemma getusers_eq:
  "getusers proxy ids names match =
     (let p = (if py_truthy ids then [(''ids'', ids)] else [])
            @ (if py_truthy names then [(''names'', names)] else [])
            @ (if py_truthy match then [(''match'', match)] else [])
      in if p = [] then ([], Inl NeedParamError)
         else ([(''User.get'', PDict p)], proxy ''User.get'' (PDict p)))"
  by (simp add: getusers_def Let_def)

text \<open>
  Claim C6. When none of \<^verbatim>\<open>ids\<close>, \<^verbatim>\<open>names\<close>, \<^verbatim>\<open>match\<close> is true as a condition
  (\<^verbatim>\<open>None\<close>, an empty list, an empty string), \<^verbatim>\<open>_getusers\<close> raises
  \<^verbatim>\<open>NeedParamError\<close> and the list of remote calls is empty. Otherwise there is one call,
  \<^verbatim>\<open>User.get\<close>, whose parameter mapping holds each of the three arguments that is
  non-empty under its own name, and no other key.
\<close>

theorem getusers_params:
  "(\<not> py_truthy ids \<and> \<not> py_truthy names \<and> \<not> py_truthy match \<longrightarrow>
      getusers proxy ids names match = ([], Inl NeedParamError))
   \<and> (py_truthy ids \<or> py_truthy names \<or> py_truthy match \<longrightarrow>
      (\<exists>p. getusers proxy ids names match = ([(''User.get'', PDict p)], proxy ''User.get'' (PDict p))
         \<and> map_of p ''ids'' = (if py_truthy ids then Some ids else None)
         \<and> map_of p ''names'' = (if py_truthy names then Some names else None)
         \<and> map_of p ''match'' = (if py_truthy match then Some match else None)
         \<and> fst ` set p \<subseteq> {''ids'', ''names'', ''match''}))"
proof (intro conjI impI)
  assume "\<not> py_truthy ids \<and> \<not> py_truthy names \<and> \<not> py_truthy match"
  then show "getusers proxy ids names match = ([], Inl NeedParamError)"
    by (simp add: getusers_eq)
next
  assume some: "py_truthy ids \<or> py_truthy names \<or> py_truthy match"
  define p where "p = (if py_truthy ids then [(''ids'', ids)] else [])
            @ (if py_truthy names then [(''names'', names)] else [])
            @ (if py_truthy match then [(''match'', match)] else [])"
  from some have "p \<noteq> []" by (auto simp: p_def)
  then have "getusers proxy ids names match = ([(''User.get'', PDict p)], proxy ''User.get'' (PDict p))"
    unfolding getusers_eq p_def [symmetric] by (simp add: Let_def)
  moreover have "map_of p ''ids'' = (if py_truthy ids then Some ids else None)"
    "map_of p ''names'' = (if py_truthy names then Some names else None)"
    "map_of p ''match'' = (if py_truthy match then Some match else None)"
    by (simp_all add: p_def)
  moreover have "fst ` set p \<subseteq> {''ids'', ''names'', ''match''}"
    unfolding p_def by (cases "py_truthy ids"; cases "py_truthy names"; cases "py_truthy match") simp_all
  ultimately show "\<exists>p. getusers proxy ids names match = ([(''User.get'', PDict p)], proxy ''User.get'' (PDict p))
         \<and> map_of p ''ids'' = (if py_truthy ids then Some ids else None)
         \<and> map_of p ''names'' = (if py_truthy names then Some names else None)
         \<and> map_of p ''match'' = (if py_truthy match then Some match else None)
         \<and> fst ` set p \<subseteq> {''ids'', ''names'', ''match''}"
    by blast
qed

theorem getusers_params_witness:
  "getusers (answer PNone) PNone PNone PNone = ([], Inl NeedParamError)
   \<and> getusers (answer PNone) (PList []) PNone (PStr []) = ([], Inl NeedParamError)
   \<and> (\<exists>p. getusers (answer (PList [])) (PList [PInt 1]) PNone (PStr ''bob'') =
              ([(''User.get'', PDict p)], Inr (PList []))
          \<and> map_of p ''ids'' = Some (PList [PInt 1])
          \<and> map_of p ''names'' = None
          \<and> map_of p ''match'' = Some (PStr ''bob''))"
  using getusers_params [where proxy = "answer PNone" and ids = PNone and names = PNone and match = PNone]
    getusers_params [where proxy = "answer PNone" and ids = "PList []" and names = PNone and match = "PStr []"]
    getusers_params [where proxy = "answer (PList [])" and ids = "PList [PInt 1]" and names = PNone
      and match = "PStr ''bob''"]
  by (simp add: answer_def) blast

section \<open>\<^verbatim>\<open>_query\<close>: the query that is sent\<close>

lemma split_on_nonempty: "split_on c s \<noteq> []"
  by (induction s) auto

lemma join_Cons: "ys \<noteq> [] \<Longrightarrow> join sep (x # ys) = x @ sep @ join sep ys"
  by (cases ys) auto

lemma split_on_join: "join [c] (split_on c s) = s"
proof (induction s)
  case Nil
  show ?case by simp
next
  case (Cons x s)
  obtain p ps where ps: "split_on c s = p # ps"
    using split_on_nonempty [of c s] by (cases "split_on c s") auto
  show ?case
  proof (cases "x = c")
    case True
    with Cons show ?thesis by (simp add: join_Cons split_on_nonempty)
  next
    case False
    with Cons ps show ?thesis by (cases ps) auto
  qed
qed

lemma split_on_pieces: "p \<in> set (split_on c s) \<Longrightarrow> c \<notin> set p"
proof (induction s arbitrary: p)
  case Nil
  then show ?case by simp
next
  case (Cons x s)
  obtain r rs where rs: "split_on c s = r # rs"
    using split_on_nonempty [of c s] by (cases "split_on c s") auto
  with Cons show ?case by (auto split: if_splits)
qed




































section \<open>\<^verbatim>\<open>_query\<close>: the records that are returned\<close>

lemma flag_str_wf: "wf_flag e \<Longrightarrow> flag_str cstr e = Inr (name_status cstr e)"
  by (cases e) (auto simp: flag_str_def and_then_Inr)

lemma map_err_flag_str:
  "list_all wf_flag es \<Longrightarrow> map_err (flag_str cstr) es = Inr (map (name_status cstr) es)"
  by (induction es) (simp_all add: flag_str_wf and_then_Inr)

lemma fix_flags_absent:
  "map_of d ''flags'' = None \<Longrightarrow> fix_flags cstr (PDict d) = Inr (PDict d)"
  by (simp add: fix_flags_def and_then_Inr)

lemma fix_flags_list:
  "map_of d ''flags'' = Some (PList es) \<Longrightarrow> list_all wf_flag es \<Longrightarrow>
     fix_flags cstr (PDict d) =
       Inr (PDict (AList.update ''flags'' (PStr (join '','' (map (name_status cstr) es))) d))"
  by (simp add: fix_flags_def and_then_Inr map_err_flag_str)

lemma fix_blocks_absent:
  "map_of d ''blocks'' = None \<Longrightarrow> fix_blocks cstr (PDict d) = Inr (PDict d)"
  by (simp add: fix_blocks_def and_then_Inr)

lemma fix_blocks_list:
  "map_of d ''blocks'' = Some (PList xs) \<Longrightarrow>
     fix_blocks cstr (PDict d) =
       Inr (PDict (AList.update ''blockedby'' (PStr (join '','' (map (py_str cstr) xs))) d))"
  by (cases xs) (simp_all add: fix_blocks_def and_then_Inr)

lemma fix_id_absent:
  "map_of d ''id'' = None \<Longrightarrow> fix_id (PDict d) = Inr (PDict d)"
  by (simp add: fix_id_def and_then_Inr)

lemma fix_id_present:
  "map_of d ''id'' = Some v \<Longrightarrow> fix_id (PDict d) = Inr (PDict (AList.update ''bug_id'' v d))"
  by (simp add: fix_id_def and_then_Inr)

lemma fix_flags_wf:
  assumes "wf_flags (map_of d ''flags'')"
  shows "\<exists>d1. fix_flags cstr (PDict d) = Inr (PDict d1)
           \<and> (\<forall>k. k \<noteq> ''flags'' \<longrightarrow> map_of d1 k = map_of d k)
           \<and> (map_of d ''flags'' = None \<longrightarrow> map_of d1 ''flags'' = None)
           \<and> (\<forall>es. map_of d ''flags'' = Some (PList es) \<longrightarrow>
                 map_of d1 ''flags'' = Some (PStr (join '','' (map (name_status cstr) es))))"
  using assms
proof (cases "map_of d ''flags''" rule: wf_flags.cases)
  case 1
  then show ?thesis by (simp add: fix_flags_absent)
next
  case (2 es)
  with assms show ?thesis by (simp add: fix_flags_list update_conv')
qed simp_all

lemma fix_blocks_wf:
  assumes "wf_blocks (map_of d ''blocks'')"
  shows "\<exists>d2. fix_blocks cstr (PDict d) = Inr (PDict d2)
           \<and> (\<forall>k. k \<noteq> ''blockedby'' \<longrightarrow> map_of d2 k = map_of d k)
           \<and> (map_of d ''blocks'' = None \<longrightarrow> map_of d2 ''blockedby'' = map_of d ''blockedby'')
           \<and> (\<forall>xs. map_of d ''blocks'' = Some (PList xs) \<longrightarrow>
                 map_of d2 ''blockedby'' = Some (PStr (join '','' (map (py_str cstr) xs))))"
  using assms
proof (cases "map_of d ''blocks''" rule: wf_blocks.cases)
  case 1
  then show ?thesis by (simp add: fix_blocks_absent)
next
  case (2 xs)
  then show ?thesis by (simp add: fix_blocks_list update_conv')
qed simp_all

lemma fix_id_total:
  "\<exists>d3. fix_id (PDict d) = Inr (PDict d3)
     \<and> (\<forall>k. k \<noteq> ''bug_id'' \<longrightarrow> map_of d3 k = map_of d k)
     \<and> (map_of d ''id'' = None \<longrightarrow> map_of d3 ''bug_id'' = map_of d ''bug_id'')
     \<and> (\<forall>v. map_of d ''id'' = Some v \<longrightarrow> map_of d3 ''bug_id'' = Some v)"
proof (cases "map_of d ''id''")
  case None
  then show ?thesis by (simp add: fix_id_absent)
next
  case (Some v)
  then show ?thesis by (simp add: fix_id_present update_conv')
qed

lemma fix_bug_dict:
  assumes "wf_bug (PDict d)"
  shows "\<exists>d'. fix_bug cstr (PDict d) = Inr (PDict d')
     \<and> (map_of d ''flags'' = None \<longrightarrow> map_of d' ''flags'' = None)
     \<and> (\<forall>es. map_of d ''flags'' = Some (PList es) \<longrightarrow>
           map_of d' ''flags'' = Some (PStr (join '','' (map (name_status cstr) es))))
     \<and> (map_of d ''blocks'' = None \<longrightarrow> map_of d' ''blockedby'' = map_of d ''blockedby'')
     \<and> (\<forall>xs. map_of d ''blocks'' = Some (PList xs) \<longrightarrow>
           map_of d' ''blockedby'' = Some (PStr (join '','' (map (py_str cstr) xs))))
     \<and> (map_of d ''id'' = None \<longrightarrow> map_of d' ''bug_id'' = map_of d ''bug_id'')
     \<and> (\<forall>v. map_of d ''id'' = Some v \<longrightarrow> map_of d' ''bug_id'' = Some v)"
proof -
  from assms have f: "wf_flags (map_of d ''flags'')" and b: "wf_blocks (map_of d ''blocks'')"
    by simp_all
  from fix_flags_wf [OF f, of cstr] obtain d1 where
    s1: "fix_flags cstr (PDict d) = Inr (PDict d1)
       \<and> (\<forall>k. k \<noteq> ''flags'' \<longrightarrow> map_of d1 k = map_of d k)
       \<and> (map_of d ''flags'' = None \<longrightarrow> map_of d1 ''flags'' = None)
       \<and> (\<forall>es. map_of d ''flags'' = Some (PList es) \<longrightarrow>
             map_of d1 ''flags'' = Some (PStr (join '','' (map (name_status cstr) es))))" ..
  then have d1: "fix_flags cstr (PDict d) = Inr (PDict d1)"
    and k1: "\<forall>k. k \<noteq> ''flags'' \<longrightarrow> map_of d1 k = map_of d k"
    and f1: "map_of d ''flags'' = None \<longrightarrow> map_of d1 ''flags'' = None"
    and f1': "\<forall>es. map_of d ''flags'' = Some (PList es) \<longrightarrow>
         map_of d1 ''flags'' = Some (PStr (join '','' (map (name_status cstr) es)))"
    by (rule conjunct1, rule conjunct2 [THEN conjunct1],
        rule conjunct2 [THEN conjunct2, THEN conjunct1],
        rule conjunct2 [THEN conjunct2, THEN conjunct2])
  have "map_of d1 ''blocks'' = map_of d ''blocks''" using k1 by simp
  with b have "wf_blocks (map_of d1 ''blocks'')" by simp
  from fix_blocks_wf [OF this, of cstr] obtain d2 where
    s2: "fix_blocks cstr (PDict d1) = Inr (PDict d2)
       \<and> (\<forall>k. k \<noteq> ''blockedby'' \<longrightarrow> map_of d2 k = map_of d1 k)
       \<and> (map_of d1 ''blocks'' = None \<longrightarrow> map_of d2 ''blockedby'' = map_of d1 ''blockedby'')
       \<and> (\<forall>xs. map_of d1 ''blocks'' = Some (PList xs) \<longrightarrow>
             map_of d2 ''blockedby'' = Some (PStr (join '','' (map (py_str cstr) xs))))" ..
  then have d2: "fix_blocks cstr (PDict d1) = Inr (PDict d2)"
    and k2: "\<forall>k. k \<noteq> ''blockedby'' \<longrightarrow> map_of d2 k = map_of d1 k"
    and b2: "map_of d1 ''blocks'' = None \<longrightarrow> map_of d2 ''blockedby'' = map_of d1 ''blockedby''"
    and b2': "\<forall>xs. map_of d1 ''blocks'' = Some (PList xs) \<longrightarrow>
         map_of d2 ''blockedby'' = Some (PStr (join '','' (map (py_str cstr) xs)))"
    by (rule conjunct1, rule conjunct2 [THEN conjunct1],
        rule conjunct2 [THEN conjunct2, THEN conjunct1],
        rule conjunct2 [THEN conjunct2, THEN conjunct2])
  from fix_id_total [of d2] obtain d3 where
    s3: "fix_id (PDict d2) = Inr (PDict d3)
       \<and> (\<forall>k. k \<noteq> ''bug_id'' \<longrightarrow> map_of d3 k = map_of d2 k)
       \<and> (map_of d2 ''id'' = None \<longrightarrow> map_of d3 ''bug_id'' = map_of d2 ''bug_id'')
       \<and> (\<forall>v. map_of d2 ''id'' = Some v \<longrightarrow> map_of d3 ''bug_id'' = Some v)" ..
  then have d3: "fix_id (PDict d2) = Inr (PDict d3)"
    and k3: "\<forall>k. k \<noteq> ''bug_id'' \<longrightarrow> map_of d3 k = map_of d2 k"
    and i3: "map_of d2 ''id'' = None \<longrightarrow> map_of d3 ''bug_id'' = map_of d2 ''bug_id''"
    and i3': "\<forall>v. map_of d2 ''id'' = Some v \<longrightarrow> map_of d3 ''bug_id'' = Some v"
    by (rule conjunct1, rule conjunct2 [THEN conjunct1],
        rule conjunct2 [THEN conjunct2, THEN conjunct1],
        rule conjunct2 [THEN conjunct2, THEN conjunct2])
  have run: "fix_bug cstr (PDict d) = Inr (PDict d3)"
    unfolding fix_bug_def d1 and_then_Inr d2 d3 ..
  have flags: "map_of d3 ''flags'' = map_of d1 ''flags''"
    using k3 k2 by simp
  have blocks: "map_of d1 ''blocks'' = map_of d ''blocks''"
    "map_of d1 ''blockedby'' = map_of d ''blockedby''"
    "map_of d3 ''blockedby'' = map_of d2 ''blockedby''"
    using k1 k3 by simp_all
  have ids: "map_of d2 ''id'' = map_of d ''id''" "map_of d2 ''bug_id'' = map_of d ''bug_id''"
    using k1 k2 by simp_all
  have r1: "map_of d ''flags'' = None \<longrightarrow> map_of d3 ''flags'' = None"
    using f1 by (simp add: flags)
  have r2: "\<forall>es. map_of d ''flags'' = Some (PList es) \<longrightarrow>
           map_of d3 ''flags'' = Some (PStr (join '','' (map (name_status cstr) es)))"
    using f1' by (simp add: flags)
  have r3: "map_of d ''blocks'' = None \<longrightarrow> map_of d3 ''blockedby'' = map_of d ''blockedby''"
    using b2 by (simp add: blocks)
  have r4: "\<forall>xs. map_of d ''blocks'' = Some (PList xs) \<longrightarrow>
           map_of d3 ''blockedby'' = Some (PStr (join '','' (map (py_str cstr) xs)))"
    using b2' by (simp add: blocks)
  have r5: "map_of d ''id'' = None \<longrightarrow> map_of d3 ''bug_id'' = map_of d ''bug_id''"
    using i3 by (simp add: ids)
  have r6: "\<forall>v. map_of d ''id'' = Some v \<longrightarrow> map_of d3 ''bug_id'' = Some v"
    using i3' by (simp add: ids)
  from run r1 r2 r3 r4 r5 r6 show ?thesis by (intro exI conjI)
qed

lemma fix_bug_total: "wf_bug b \<Longrightarrow> \<exists>b'. fix_bug cstr b = Inr b'"
proof (cases b)
  case (PDict d)
  assume "wf_bug b"
  with PDict have "wf_bug (PDict d)" by simp
  from fix_bug_dict [OF this, of cstr] obtain d' where "fix_bug cstr (PDict d) = Inr (PDict d')" 
    by (elim exE conjE)
  with PDict show ?thesis by simp
qed simp_all

lemma query_records:
  assumes norm: "query_normalize q = Inr q'"
    and resp: "proxy ''Bug.search'' (PDict q') = Inr (PDict ret)"
    and bugs: "map_of ret ''bugs'' = Some (PList bugs)"
    and wf: "\<forall>b\<in>set bugs. wf_bug b"
  shows "\<exists>bugs'. query cstr proxy q =
             ([(''Bug.search'', PDict q')], Inr (PDict (AList.update ''bugs'' (PList bugs') ret)))
           \<and> list_all2 (\<lambda>b b'. fix_bug cstr b = Inr b') bugs bugs'"
proof -
  from wf have "\<forall>b\<in>set bugs. \<exists>b'. fix_bug cstr b = Inr b'"
    using fix_bug_total by simp
  then have "\<exists>bugs'. map_err (fix_bug cstr) bugs = Inr bugs'"
    by (rule map_err_total)
  then obtain bugs' where run: "map_err (fix_bug cstr) bugs = Inr bugs'" ..
  then have all2: "list_all2 (\<lambda>b b'. fix_bug cstr b = Inr b') bugs bugs'"
    by (simp add: map_err_Inr_iff)
  have "py_getitem (PDict ret) ''bugs'' = Inr (PList bugs)"
    using bugs by simp
  then have "query cstr proxy q =
      ([(''Bug.search'', PDict q')], Inr (PDict (AList.update ''bugs'' (PList bugs') ret)))"
    by (simp add: query_def norm resp run and_then_Inr with_bugs_def)
  with all2 show ?thesis by (intro exI conjI)
qed

lemma query_records_dict:
  assumes norm: "query_normalize q = Inr q'"
    and resp: "proxy ''Bug.search'' (PDict q') = Inr (PDict ret)"
    and bugs: "map_of ret ''bugs'' = Some (PList bugs)"
    and wf: "\<forall>b\<in>set bugs. wf_bug b"
    and rule: "\<And>d d'. wf_bug (PDict d) \<Longrightarrow> fix_bug cstr (PDict d) = Inr (PDict d') \<Longrightarrow> P d d'"
  shows "\<exists>bugs'. query cstr proxy q =
             ([(''Bug.search'', PDict q')], Inr (PDict (AList.update ''bugs'' (PList bugs') ret)))
           \<and> list_all2 (\<lambda>b b'. \<exists>d d'. b = PDict d \<and> b' = PDict d' \<and> P d d') bugs bugs'"
proof -
  have "\<exists>bugs'. query cstr proxy q =
             ([(''Bug.search'', PDict q')], Inr (PDict (AList.update ''bugs'' (PList bugs') ret)))
           \<and> list_all2 (\<lambda>b b'. fix_bug cstr b = Inr b') bugs bugs'"
    using norm resp bugs wf by (rule query_records)
  then obtain bugs' where
    res: "query cstr proxy q =
             ([(''Bug.search'', PDict q')], Inr (PDict (AList.update ''bugs'' (PList bugs') ret)))"
    and all2: "list_all2 (\<lambda>b b'. fix_bug cstr b = Inr b') bugs bugs'"
    by (elim exE conjE)
  have "list_all2 (\<lambda>b b'. \<exists>d d'. b = PDict d \<and> b' = PDict d' \<and> P d d') bugs bugs'"
  proof (rule list.rel_mono_strong [OF all2])
    fix b b' assume b: "b \<in> set bugs" and run: "fix_bug cstr b = Inr b'"
    from wf b have wfb: "wf_bug b" by simp
    then obtain d where d: "b = PDict d" by (cases b) simp_all
    with wfb have "wf_bug (PDict d)" by simp
    from fix_bug_dict [OF this, of cstr] obtain d' where d': "fix_bug cstr (PDict d) = Inr (PDict d')"
      by (elim exE conjE)
    with run d have "b' = PDict d'" by simp
    moreover from wfb d d' have "P d d'" by (simp add: rule)
    ultimately show "\<exists>d d'. b = PDict d \<and> b' = PDict d' \<and> P d d'"
      using d by simp
  qed
  with res show ?thesis by (intro exI conjI)
qed

lemma fix_bug_props:
  assumes wf: "wf_bug (PDict d)" and run: "fix_bug cstr (PDict d) = Inr (PDict d')"
  shows "(map_of d ''flags'' = None \<longrightarrow> map_of d' ''flags'' = None)
     \<and> (\<forall>es. map_of d ''flags'' = Some (PList es) \<longrightarrow>
           map_of d' ''flags'' = Some (PStr (join '','' (map (name_status cstr) es))))
     \<and> (map_of d ''blocks'' = None \<longrightarrow> map_of d' ''blockedby'' = map_of d ''blockedby'')
     \<and> (\<forall>xs. map_of d ''blocks'' = Some (PList xs) \<longrightarrow>
           map_of d' ''blockedby'' = Some (PStr (join '','' (map (py_str cstr) xs))))
     \<and> (map_of d ''id'' = None \<longrightarrow> map_of d' ''bug_id'' = map_of d ''bug_id'')
     \<and> (\<forall>v. map_of d ''id'' = Some v \<longrightarrow> map_of d' ''bug_id'' = Some v)"
  using fix_bug_dict [OF wf, of cstr] unfolding run by simp

lemmas eval_defs = query_def query_normalize_def query_prepare_def norm_bug_id_def
  norm_column_list_def replace_field_def dict_item_def erase_dict_def and_then_def answer_def
  with_bugs_def fix_bug_def fix_flags_def fix_blocks_def fix_id_def flag_str_def

text \<open>
  Claim C3. Let the query be sent and the service answer with a mapping whose \<^verbatim>\<open>bugs\<close>
  is a list of well-formed records. Then \<^verbatim>\<open>_query\<close> returns the response with one new
  record for each record, in the same order: a record without \<^verbatim>\<open>flags\<close> gives a record
  without \<^verbatim>\<open>flags\<close>, and a record whose \<^verbatim>\<open>flags\<close> is a list gives a record whose
  \<^verbatim>\<open>flags\<close> is the string of the texts name+status of its entries, joined by commas.
\<close>

theorem query_flags_joined:
  assumes norm: "query_normalize q = Inr q'"
    and resp: "proxy ''Bug.search'' (PDict q') = Inr (PDict ret)"
    and bugs: "map_of ret ''bugs'' = Some (PList bugs)"
    and wf: "\<forall>b\<in>set bugs. wf_bug b"
  shows "\<exists>bugs'. query cstr proxy q =
             ([(''Bug.search'', PDict q')], Inr (PDict (AList.update ''bugs'' (PList bugs') ret)))
           \<and> list_all2 (\<lambda>b b'. \<exists>d d'. b = PDict d \<and> b' = PDict d'
                \<and> (map_of d ''flags'' = None \<longrightarrow> map_of d' ''flags'' = None)
                \<and> (\<forall>es. map_of d ''flags'' = Some (PList es) \<longrightarrow>
                      map_of d' ''flags'' = Some (PStr (join '','' (map (name_status cstr) es)))))
               bugs bugs'"
  using norm resp bugs wf
proof (rule query_records_dict)
  fix d d' assume "wf_bug (PDict d)" "fix_bug cstr (PDict d) = Inr (PDict d')"
  from fix_bug_props [OF this]
  show "(map_of d ''flags'' = None \<longrightarrow> map_of d' ''flags'' = None)
      \<and> (\<forall>es. map_of d ''flags'' = Some (PList es) \<longrightarrow>
            map_of d' ''flags'' = Some (PStr (join '','' (map (name_status cstr) es))))"
    by simp
qed

text \<open>The flags \<^verbatim>\<open>review+\<close> and \<^verbatim>\<open>qa?\<close>, and a record without flags.\<close>

theorem query_flags_joined_witness:
  "snd (query brackets
          (answer (PDict [(''bugs'', PList
             [PDict [(''flags'', PList [PDict [(''name'', PStr ''review''), (''status'', PStr ''+'')],
                                        PDict [(''name'', PStr ''qa''), (''status'', PStr ''?'')]])],
              PDict [(''summary'', PStr ''s'')]])]))
          []) =
     Inr (PDict [(''bugs'', PList [PDict [(''flags'', PStr ''review+,qa?'')],
                                   PDict [(''summary'', PStr ''s'')]])])"
  using query_flags_joined [where cstr = brackets and q = "[]" and q' = "[(''include_fields'', PList [])]"
      and proxy = "answer (PDict [(''bugs'', PList
             [PDict [(''flags'', PList [PDict [(''name'', PStr ''review''), (''status'', PStr ''+'')],
                                        PDict [(''name'', PStr ''qa''), (''status'', PStr ''?'')]])],
              PDict [(''summary'', PStr ''s'')]])])"
      and ret = "[(''bugs'', PList
             [PDict [(''flags'', PList [PDict [(''name'', PStr ''review''), (''status'', PStr ''+'')],
                                        PDict [(''name'', PStr ''qa''), (''status'', PStr ''?'')]])],
              PDict [(''summary'', PStr ''s'')]])]"
      and bugs = "[PDict [(''flags'', PList [PDict [(''name'', PStr ''review''), (''status'', PStr ''+'')],
                                        PDict [(''name'', PStr ''qa''), (''status'', PStr ''?'')]])],
              PDict [(''summary'', PStr ''s'')]]"]
  by (simp add: eval_defs)

text \<open>
  Claim C4. Under the same conditions: a record whose \<^verbatim>\<open>blocks\<close> is a non-empty list
  gives a record whose \<^verbatim>\<open>blockedby\<close> is the string of its elements, each as \<^verbatim>\<open>str\<close>
  prints it, joined by commas; an empty \<^verbatim>\<open>blocks\<close> gives the empty string; and for a
  record without \<^verbatim>\<open>blocks\<close> the key \<^verbatim>\<open>blockedby\<close> is as it was in the response, so
  none is added.
\<close>

theorem query_blockedby:
  assumes norm: "query_normalize q = Inr q'"
    and resp: "proxy ''Bug.search'' (PDict q') = Inr (PDict ret)"
    and bugs: "map_of ret ''bugs'' = Some (PList bugs)"
    and wf: "\<forall>b\<in>set bugs. wf_bug b"
  shows "\<exists>bugs'. query cstr proxy q =
             ([(''Bug.search'', PDict q')], Inr (PDict (AList.update ''bugs'' (PList bugs') ret)))
           \<and> list_all2 (\<lambda>b b'. \<exists>d d'. b = PDict d \<and> b' = PDict d'
                \<and> (\<forall>xs. xs \<noteq> [] \<and> map_of d ''blocks'' = Some (PList xs) \<longrightarrow>
                      map_of d' ''blockedby'' = Some (PStr (join '','' (map (py_str cstr) xs))))
                \<and> (map_of d ''blocks'' = Some (PList []) \<longrightarrow> map_of d' ''blockedby'' = Some (PStr []))
                \<and> (map_of d ''blocks'' = None \<longrightarrow> map_of d' ''blockedby'' = map_of d ''blockedby''))
               bugs bugs'"
  using norm resp bugs wf
proof (rule query_records_dict)
  fix d d' assume "wf_bug (PDict d)" "fix_bug cstr (PDict d) = Inr (PDict d')"
  from fix_bug_props [OF this]
  show "(\<forall>xs. xs \<noteq> [] \<and> map_of d ''blocks'' = Some (PList xs) \<longrightarrow>
            map_of d' ''blockedby'' = Some (PStr (join '','' (map (py_str cstr) xs))))
      \<and> (map_of d ''blocks'' = Some (PList []) \<longrightarrow> map_of d' ''blockedby'' = Some (PStr []))
      \<and> (map_of d ''blocks'' = None \<longrightarrow> map_of d' ''blockedby'' = map_of d ''blockedby'')"
    by simp
qed

text \<open>The examples of the specification: \<^verbatim>\<open>blocks: [5,6]\<close>, \<^verbatim>\<open>blocks: []\<close> and no \<^verbatim>\<open>blocks\<close>.\<close>

theorem query_blockedby_witness:
  "snd (query brackets
          (answer (PDict [(''bugs'', PList
             [PDict [(''blocks'', PList [PInt 5, PInt 6])],
              PDict [(''blocks'', PList [])],
              PDict [(''summary'', PStr ''s'')]])]))
          []) =
     Inr (PDict [(''bugs'', PList
             [PDict [(''blocks'', PList [PInt 5, PInt 6]), (''blockedby'', PStr ''5,6'')],
              PDict [(''blocks'', PList []), (''blockedby'', PStr [])],
              PDict [(''summary'', PStr ''s'')]])])"
  using query_blockedby [where cstr = brackets and q = "[]" and q' = "[(''include_fields'', PList [])]"
      and proxy = "answer (PDict [(''bugs'', PList
             [PDict [(''blocks'', PList [PInt 5, PInt 6])],
              PDict [(''blocks'', PList [])],
              PDict [(''summary'', PStr ''s'')]])])"
      and ret = "[(''bugs'', PList
             [PDict [(''blocks'', PList [PInt 5, PInt 6])],
              PDict [(''blocks'', PList [])],
              PDict [(''summary'', PStr ''s'')]])]"
      and bugs = "[PDict [(''blocks'', PList [PInt 5, PInt 6])],
              PDict [(''blocks'', PList [])],
              PDict [(''summary'', PStr ''s'')]]"]
  by (simp add: eval_defs show_int_def show_nat.simps)

text \<open>
  Claim C10. Under the same conditions: a record whose \<^verbatim>\<open>flags\<close> is the empty list gives
  a record that still has the key \<^verbatim>\<open>flags\<close>, now with the empty string as its value.
\<close>

theorem query_flags_empty:
  assumes norm: "query_normalize q = Inr q'"
    and resp: "proxy ''Bug.search'' (PDict q') = Inr (PDict ret)"
    and bugs: "map_of ret ''bugs'' = Some (PList bugs)"
    and wf: "\<forall>b\<in>set bugs. wf_bug b"
  shows "\<exists>bugs'. query cstr proxy q =
             ([(''Bug.search'', PDict q')], Inr (PDict (AList.update ''bugs'' (PList bugs') ret)))
           \<and> list_all2 (\<lambda>b b'. \<exists>d d'. b = PDict d \<and> b' = PDict d'
                \<and> (map_of d ''flags'' = Some (PList []) \<longrightarrow> map_of d' ''flags'' = Some (PStr [])))
               bugs bugs'"
  using norm resp bugs wf
proof (rule query_records_dict)
  fix d d' assume "wf_bug (PDict d)" "fix_bug cstr (PDict d) = Inr (PDict d')"
  from fix_bug_props [OF this]
  show "map_of d ''flags'' = Some (PList []) \<longrightarrow> map_of d' ''flags'' = Some (PStr [])"
    by simp
qed

theorem query_flags_empty_witness:
  "snd (query brackets (answer (PDict [(''bugs'', PList [PDict [(''id'', PInt 7), (''flags'', PList [])]])])) []) =
     Inr (PDict [(''bugs'', PList [PDict [(''id'', PInt 7), (''flags'', PStr []), (''bug_id'', PInt 7)]])])"
  using query_flags_empty [where cstr = brackets and q = "[]" and q' = "[(''include_fields'', PList [])]"
      and proxy = "answer (PDict [(''bugs'', PList [PDict [(''id'', PInt 7), (''flags'', PList [])]])])"
      and ret = "[(''bugs'', PList [PDict [(''id'', PInt 7), (''flags'', PList [])]])]"
      and bugs = "[PDict [(''id'', PInt 7), (''flags'', PList [])]]"]
  by (simp add: eval_defs)

section \<open>\<^verbatim>\<open>_getbugfields\<close>\<close>

lemma getbugfields_eq:
  assumes "proxy ''Bug.fields'' (PDict [(''include_fields'', PList [PStr ''name''])]) = Inr (PDict r)"
    and "map_of r ''fields'' = Some (PList fs)"
    and "list_all2 (\<lambda>f n. \<exists>d. f = PDict d \<and> map_of d ''name'' = Some n) fs names"
  shows "getbugfields proxy =
           ([(''Bug.fields'', PDict [(''include_fields'', PList [PStr ''name''])])],
            Inr (PList (names @ [PStr ''blockedby''])))"
proof -
  from assms(3) have "list_all2 (\<lambda>f n. py_getitem f ''name'' = Inr n) fs names"
    by (rule list_all2_mono) auto
  then have "map_err (\<lambda>f. py_getitem f ''name'') fs = Inr names"
    by (simp add: map_err_Inr_iff)
  with assms(1,2) show ?thesis
    by (simp add: getbugfields_def Let_def and_then_Inr)
qed

text \<open>
  Claim C8, as amended. When the service answers \<^verbatim>\<open>Bug.fields\<close> with a list of records
  that each have a \<^verbatim>\<open>name\<close>, the result is the list of these names followed by
  \<^verbatim>\<open>'blockedby'\<close> as its last element. The result holds \<^verbatim>\<open>'blockedby'\<close> once more
  than the names of the service do: exactly once if and only if no field of the service
  is named \<^verbatim>\<open>'blockedby'\<close>.
\<close>

theorem getbugfields_appended:
  assumes "proxy ''Bug.fields'' (PDict [(''include_fields'', PList [PStr ''name''])]) = Inr (PDict r)"
    and "map_of r ''fields'' = Some (PList fs)"
    and "list_all2 (\<lambda>f n. \<exists>d. f = PDict d \<and> map_of d ''name'' = Some n) fs names"
  shows "\<exists>out. snd (getbugfields proxy) = Inr (PList out)
           \<and> out = names @ [PStr ''blockedby'']
           \<and> last out = PStr ''blockedby''
           \<and> count_list out (PStr ''blockedby'') = count_list names (PStr ''blockedby'') + 1
           \<and> (count_list out (PStr ''blockedby'') = 1 \<longleftrightarrow> PStr ''blockedby'' \<notin> set names)"
proof -
  have "getbugfields proxy =
           ([(''Bug.fields'', PDict [(''include_fields'', PList [PStr ''name''])])],
            Inr (PList (names @ [PStr ''blockedby''])))"
    using assms by (rule getbugfields_eq)
  then show ?thesis by (simp add: count_list_0_iff)
qed

theorem getbugfields_appended_witness:
  "\<exists>out. snd (getbugfields (answer (PDict [(''fields'',
              PList [PDict [(''name'', PStr ''id'')], PDict [(''name'', PStr ''summary'')]])]))) =
            Inr (PList out)
        \<and> out = [PStr ''id'', PStr ''summary'', PStr ''blockedby'']
        \<and> count_list out (PStr ''blockedby'') = 1"
  using getbugfields_appended [where proxy = "answer (PDict [(''fields'',
              PList [PDict [(''name'', PStr ''id'')], PDict [(''name'', PStr ''summary'')]])])"
      and r = "[(''fields'', PList [PDict [(''name'', PStr ''id'')], PDict [(''name'', PStr ''summary'')]])]"
      and fs = "[PDict [(''name'', PStr ''id'')], PDict [(''name'', PStr ''summary'')]]"
      and names = "[PStr ''id'', PStr ''summary'']"]
  by (simp add: answer_def)

text \<open>
  A service that itself lists a field named \<^verbatim>\<open>blockedby\<close>: the result holds the name
  twice.
\<close>

theorem getbugfields_once_counterexample:
  "snd (getbugfields (answer (PDict [(''fields'', PList [PDict [(''name'', PStr ''blockedby'')]])]))) =
     Inr (PList [PStr ''blockedby'', PStr ''blockedby''])
   \<and> count_list [PStr ''blockedby'', PStr ''blockedby''] (PStr ''blockedby'') = 2"
  by (simp add: getbugfields_def Let_def answer_def and_then_Inr)

end
